theory Spec2Isabelle
  imports Main "HOL-Library.Product_Lexorder"
begin

unbundle bit_operations_syntax

section \<open>Python values used by core/time.py\<close>

text \<open>
  A Python \<open>str\<close> is modelled as a \<open>string\<close>; every character of the literals of
  core/time.py is a code point below 256 (the Danish letter a-with-ring is \<open>CHR 0xE5\<close>),
  so one \<open>char\<close> stands for one code point.
\<close>

datatype 'e error =
    BadArgument string    \<comment> \<open>discord's \<open>BadArgument(message)\<close>\<close>
  | ValueError string     \<comment> \<open>raised by \<open>datetime.replace\<close> and by \<open>int\<close>\<close>
  | IndexError            \<comment> \<open>\<open>argument[0]\<close> on the empty string\<close>
  | AttributeError string \<comment> \<open>\<open>getattr\<close> on a name the object does not have\<close>
  | Raised 'e             \<comment> \<open>whatever the secondary converter raises, passed on unchanged\<close>

definition is_space :: "char \<Rightarrow> bool" where
  \<comment> \<open>\<open>str.isspace\<close> on the code points below 256\<close>
  "is_space c = ((of_char c :: nat) \<in> {9, 10, 11, 12, 13, 28, 29, 30, 31, 32, 133, 160})"

definition lstrip :: "string \<Rightarrow> string" where
  "lstrip s = dropWhile is_space s"

definition rstrip :: "string \<Rightarrow> string" where
  "rstrip s = rev (dropWhile is_space (rev s))"

definition strip :: "string \<Rightarrow> string" where
  \<comment> \<open>\<open>s.strip()\<close>\<close>
  "strip s = rstrip (lstrip s)"

definition lstrip_chars :: "string \<Rightarrow> string \<Rightarrow> string" where
  \<comment> \<open>\<open>s.lstrip(chars)\<close>\<close>
  "lstrip_chars chars s = dropWhile (\<lambda>c. c \<in> set chars) s"

definition startswith :: "string \<Rightarrow> string \<Rightarrow> bool" where
  "startswith s p = (take (length p) s = p)"

definition endswith :: "string \<Rightarrow> string \<Rightarrow> bool" where
  "endswith s p = (length p \<le> length s \<and> drop (length s - length p) s = p)"

definition is_digit :: "char \<Rightarrow> bool" where
  \<comment> \<open>the character class \<open>[0-9]\<close>\<close>
  "is_digit c = (48 \<le> (of_char c :: nat) \<and> (of_char c :: nat) \<le> 57)"

definition digit_val :: "char \<Rightarrow> nat" where
  "digit_val c = of_char c - 48"

definition digits_value :: "string \<Rightarrow> nat" where
  "digits_value s = foldl (\<lambda>a c. 10 * a + digit_val c) 0 s"

definition py_int :: "string \<Rightarrow> 'e error + int" where
  \<comment> \<open>\<open>int(v)\<close> on a run of decimal digits; the program applies it to nothing else\<close>
  "py_int v = (if v \<noteq> [] \<and> list_all is_digit v then Inr (int (digits_value v))
               else Inl (ValueError ''invalid literal for int()''))"

section \<open>The regular expression of ShortTime\<close>

text \<open>
  The fragment of Python's \<open>re\<close> that \<open>ShortTime.compiled\<close> is written in: literals, the
  class \<open>[0-9]\<close>, concatenation, alternation, the greedy \<open>?\<close> and \<open>{lo,hi}\<close>, and named
  groups. \<open>run\<close> lists the ways a pattern can match at the head of the text, in the order
  in which the backtracking matcher tries them: each is the text left over together with
  the groups captured so far.
\<close>

datatype rx =
    Lit string
  | Digit
  | Cat rx rx
  | Alt rx rx
  | Opt rx
  | Rep rx nat nat
  | Grp string rx

type_synonym captures = "string \<Rightarrow> string option"
type_synonym mstate = "string \<times> captures"

primrec rx_size :: "rx \<Rightarrow> nat" where
  "rx_size (Lit l) = 0"
| "rx_size Digit = 0"
| "rx_size (Cat a b) = Suc (rx_size a + rx_size b)"
| "rx_size (Alt a b) = Suc (rx_size a + rx_size b)"
| "rx_size (Opt a) = Suc (rx_size a)"
| "rx_size (Rep a lo hi) = Suc (rx_size a + hi)"
| "rx_size (Grp n a) = Suc (rx_size a)"

function run :: "rx \<Rightarrow> mstate \<Rightarrow> mstate list" where
  "run (Lit l) (s, c) = (if startswith s l then [(drop (length l) s, c)] else [])"
| "run Digit (s, c) = (case s of [] \<Rightarrow> [] | x # xs \<Rightarrow> if is_digit x then [(xs, c)] else [])"
| "run (Cat a b) st = concat (map (run b) (run a st))"
| "run (Alt a b) st = run a st @ run b st"
| "run (Opt a) st = run a st @ [st]"
| "run (Rep a lo 0) st = (if lo = 0 then [st] else [])"
| "run (Rep a lo (Suc hi)) st =
     concat (map (run (Rep a (lo - 1) hi)) (run a st)) @ (if lo = 0 then [st] else [])"
| "run (Grp n a) (s, c) =
     map (\<lambda>(s', c'). (s', c'(n \<mapsto> take (length s - length s') s))) (run a (s, c))"
  by pat_completeness auto
termination
  by (relation "measure (\<lambda>(r, st). rx_size r)") auto

definition unit_group :: "string \<Rightarrow> nat \<Rightarrow> rx \<Rightarrow> rx" where
  \<comment> \<open>\<open>(?:(?P<name>[0-9]{1,k})(?:suffix))?\<close>\<close>
  "unit_group name k suffix = Opt (Cat (Grp name (Rep Digit 1 k)) suffix)"

definition compiled :: rx where
  "compiled =
     Cat (unit_group ''years'' 1 (Alt (Cat (Lit ''year'') (Opt (Lit ''s''))) (Lit ''y'')))
    (Cat (unit_group ''months'' 2 (Alt (Cat (Lit ''month'') (Opt (Lit ''s''))) (Lit ''mo'')))
    (Cat (unit_group ''weeks'' 4 (Alt (Cat (Lit ''week'') (Opt (Lit ''s''))) (Lit ''w'')))
    (Cat (unit_group ''days'' 5 (Alt (Cat (Lit ''day'') (Opt (Lit ''s''))) (Lit ''d'')))
    (Cat (unit_group ''hours'' 5 (Alt (Cat (Lit ''hour'') (Opt (Lit ''s''))) (Lit ''h'')))
    (Cat (unit_group ''minutes'' 5
            (Alt (Cat (Lit ''min'') (Cat (Opt (Lit ''ute'')) (Opt (Lit ''s'')))) (Lit ''m'')))
         (unit_group ''seconds'' 5
            (Alt (Cat (Lit ''sec'') (Cat (Opt (Lit ''ond'')) (Opt (Lit ''s'')))) (Lit ''s''))))))))"

definition group_names :: "string list" where
  "group_names = [''years'', ''months'', ''weeks'', ''days'', ''hours'', ''minutes'', ''seconds'']"

record rmatch =
  m_end :: nat           \<comment> \<open>\<open>match.end()\<close>\<close>
  m_groups :: captures   \<comment> \<open>the named groups that took part in the match\<close>

definition to_match :: "string \<Rightarrow> mstate \<Rightarrow> rmatch" where
  "to_match s st = \<lparr>m_end = length s - length (fst st), m_groups = snd st\<rparr>"

definition regex_match :: "rx \<Rightarrow> string \<Rightarrow> rmatch option" where
  \<comment> \<open>\<open>pattern.match(s)\<close>: the first way to match at the start of \<open>s\<close>\<close>
  "regex_match r s = (case run r (s, Map.empty) of [] \<Rightarrow> None | st # _ \<Rightarrow> Some (to_match s st))"

definition regex_fullmatch :: "rx \<Rightarrow> string \<Rightarrow> rmatch option" where
  \<comment> \<open>\<open>pattern.fullmatch(s)\<close>: the first way to match that uses up all of \<open>s\<close>\<close>
  "regex_fullmatch r s =
     (case filter (\<lambda>st. fst st = []) (run r (s, Map.empty)) of
        [] \<Rightarrow> None | st # _ \<Rightarrow> Some (to_match s st))"

definition group0 :: "string \<Rightarrow> rmatch \<Rightarrow> string" where
  \<comment> \<open>\<open>match.group(0)\<close>, the matched text (a match starts at offset 0)\<close>
  "group0 s m = take (m_end m) s"

definition groupdict :: "rmatch \<Rightarrow> string \<Rightarrow> (string \<times> string) list" where
  \<comment> \<open>\<open>match.groupdict(default=d)\<close>\<close>
  "groupdict m d = map (\<lambda>k. (k, case m_groups m k of None \<Rightarrow> d | Some v \<Rightarrow> v)) group_names"

fun int_items :: "(string \<times> string) list \<Rightarrow> 'e error + (string \<times> int) list" where
  \<comment> \<open>\<open>{k: int(v) for k, v in items}\<close>\<close>
  "int_items [] = Inr []"
| "int_items ((k, v) # kvs) =
     (case py_int v of
        Inl e \<Rightarrow> Inl e
      | Inr n \<Rightarrow> (case int_items kvs of Inl e \<Rightarrow> Inl e | Inr r \<Rightarrow> Inr ((k, n) # r)))"

section \<open>datetime, and the libraries taken as given\<close>

record datetime =
  year :: int
  month :: int
  day :: int
  hour :: int
  minute :: int
  second :: int
  microsecond :: int

definition dt_key :: "datetime \<Rightarrow> int \<times> int \<times> int \<times> int \<times> int \<times> int \<times> int" where
  "dt_key d = (year d, month d, day d, hour d, minute d, second d, microsecond d)"

definition dt_less :: "datetime \<Rightarrow> datetime \<Rightarrow> bool" where
  \<comment> \<open>\<open>a < b\<close> on naive datetimes: the fields compared in order\<close>
  "dt_less a b = (dt_key a < dt_key b)"

definition dt_le :: "datetime \<Rightarrow> datetime \<Rightarrow> bool" where
  \<comment> \<open>\<open>a <= b\<close>\<close>
  "dt_le a b = (dt_key a \<le> dt_key b)"

definition is_leap :: "int \<Rightarrow> bool" where
  "is_leap y = (y mod 4 = 0 \<and> (y mod 100 \<noteq> 0 \<or> y mod 400 = 0))"

definition days_in_month :: "int \<Rightarrow> int \<Rightarrow> int" where
  "days_in_month y m =
     (if m = 2 then (if is_leap y then 29 else 28)
      else if m \<in> {4, 6, 9, 11} then 30
      else if m \<in> {1, 3, 5, 7, 8, 10, 12} then 31
      else 0)"

definition replace_day :: "datetime \<Rightarrow> int \<Rightarrow> 'e error + datetime" where
  \<comment> \<open>\<open>dt.replace(day=v)\<close>: the constructor refuses a day the month does not have\<close>
  "replace_day d v =
     (if 1 \<le> v \<and> v \<le> days_in_month (year d) (month d) then Inr (d\<lparr>day := v\<rparr>)
      else Inl (ValueError ''day is out of range for month''))"

definition replace_time :: "datetime \<Rightarrow> datetime \<Rightarrow> datetime" where
  \<comment> \<open>\<open>dt.replace(hour=now.hour, minute=now.minute, second=now.second,
      microsecond=now.microsecond)\<close>; the four values come from a datetime, so they are
      in range and the call returns\<close>
  "replace_time d n =
     d\<lparr>hour := hour n, minute := minute n, second := second n, microsecond := microsecond n\<rparr>"

text \<open>
  The status object of parsedatetime under \<open>VERSION_CONTEXT_STYLE\<close> is a \<open>pdtContext\<close>
  (parsedatetime/context.py): one integer of accuracy flags, from which the library
  computes the properties that core/time.py reads (\<open>hasDateOrTime\<close>, \<open>hasTime\<close>) and with
  which the program compares \<open>ACU_HALFDAY\<close>.
\<close>

record pdtContext =
  accuracy :: nat

definition ACU_HALFDAY :: nat where
  "ACU_HALFDAY = 2 ^ 4"

definition ACU_TIME :: nat where
  \<comment> \<open>\<open>ACU_HALFDAY | ACU_HOUR | ACU_MIN | ACU_SEC | ACU_NOW\<close>\<close>
  "ACU_TIME = 2 ^ 4 OR 2 ^ 5 OR 2 ^ 6 OR 2 ^ 7 OR 2 ^ 8"

definition hasTime :: "pdtContext \<Rightarrow> bool" where
  \<comment> \<open>\<open>bool(self.accuracy & self.ACU_TIME)\<close>\<close>
  "hasTime status = (accuracy status AND ACU_TIME \<noteq> 0)"

definition hasDateOrTime :: "pdtContext \<Rightarrow> bool" where
  \<comment> \<open>\<open>bool(self.accuracy)\<close>\<close>
  "hasDateOrTime status = (accuracy status \<noteq> 0)"

text \<open>
  The libraries are parameters of the functions below:
  \<^item> \<open>dt_plus now data\<close> is \<open>now + relativedelta(**data)\<close> of dateutil, \<open>data\<close> the keyword
    arguments in the order of the pattern's groups;
  \<^item> \<open>parseDT argument now\<close> is \<open>calendar.parseDT(argument, sourceTime=now)\<close>;
  \<^item> \<open>nlp argument now\<close> is \<open>calendar.nlp(argument, sourceTime=now)\<close>: \<open>None\<close> or a
    sequence of \<open>(datetime, status, begin, end, text)\<close>;
  \<^item> \<open>rd_between a b\<close> is \<open>relativedelta(a, b)\<close> and \<open>rd_plus\<close> the sum of two deltas;
  \<^item> every \<open>datetime.utcnow()\<close> is an argument \<open>now\<close> of the function that reads it.

  These calls are taken to return. For \<open>dt_plus\<close> that is so on every clock reading of
  this era: the digit counts of the pattern keep the offset below 500 years, far from
  datetime's last year 9999.
\<close>

type_synonym plus_fn = "datetime \<Rightarrow> (string \<times> int) list \<Rightarrow> datetime"
type_synonym parse_fn = "string \<Rightarrow> datetime \<Rightarrow> datetime \<times> pdtContext"
type_synonym nlp_elem = "datetime \<times> pdtContext \<times> nat \<times> nat \<times> string"
type_synonym nlp_fn = "string \<Rightarrow> datetime \<Rightarrow> nlp_elem list option"

section \<open>ShortTime, HumanTime, Time, FutureTime\<close>

definition short_match :: "(rx \<Rightarrow> string \<Rightarrow> rmatch option) \<Rightarrow> string \<Rightarrow> rmatch option" where
  \<comment> \<open>the test \<open>match is not None and match.group(0)\<close> on \<open>compiled.fullmatch(argument)\<close>
      (in \<open>ShortTime\<close>) or \<open>compiled.match(argument)\<close> (in \<open>convert\<close>): the match when the
      test passes\<close>
  "short_match how argument =
     (case how compiled argument of
        None \<Rightarrow> None
      | Some m \<Rightarrow> if group0 argument m = [] then None else Some m)"

definition ShortTime :: "plus_fn \<Rightarrow> datetime \<Rightarrow> string \<Rightarrow> 'e error + datetime" where
  "ShortTime dt_plus now argument =
     (case short_match regex_fullmatch argument of
        None \<Rightarrow> Inl (BadArgument ''invalid time provided'')
      | Some m \<Rightarrow>
          (case int_items (groupdict m ''0'') of
             Inl e \<Rightarrow> Inl e
           | Inr data \<Rightarrow> Inr (dt_plus now data)))"

record human_time =
  ht_dt :: datetime   \<comment> \<open>\<open>self.dt\<close>\<close>
  ht_past :: bool     \<comment> \<open>\<open>self._past\<close>\<close>

definition msg_invalid_time :: string where
  "msg_invalid_time =
     ''invalid time provided, try e.g. '' @ [CHR 0x22] @ ''tomorrow'' @ [CHR 0x22] @
     '' or '' @ [CHR 0x22] @ ''3 days'' @ [CHR 0x22]"

definition HumanTime :: "parse_fn \<Rightarrow> datetime \<Rightarrow> string \<Rightarrow> 'e error + human_time" where
  "HumanTime parseDT now argument =
     (case parseDT argument now of
        (d, status) \<Rightarrow>
          if \<not> hasDateOrTime status then Inl (BadArgument msg_invalid_time)
          else
            let d1 = (if \<not> hasTime status then replace_time d now else d)
            in Inr \<lparr>ht_dt = d1, ht_past = dt_less d1 now\<rparr>)"

definition Time ::
  "plus_fn \<Rightarrow> parse_fn \<Rightarrow> datetime \<Rightarrow> datetime \<Rightarrow> string \<Rightarrow> 'e error + human_time" where
  \<comment> \<open>\<open>now1\<close> is the clock read by \<open>ShortTime\<close>, \<open>now2\<close> the one read by \<open>HumanTime\<close> when
      \<open>ShortTime\<close> raised\<close>
  "Time dt_plus parseDT now1 now2 argument =
     (case (ShortTime dt_plus now1 argument :: 'e error + datetime) of
        Inl e \<Rightarrow> HumanTime parseDT now2 argument
      | Inr d \<Rightarrow> Inr \<lparr>ht_dt = d, ht_past = False\<rparr>)"

definition FutureTime ::
  "plus_fn \<Rightarrow> parse_fn \<Rightarrow> datetime \<Rightarrow> datetime \<Rightarrow> string \<Rightarrow> 'e error + human_time" where
  "FutureTime dt_plus parseDT now1 now2 argument =
     (case Time dt_plus parseDT now1 now2 argument of
        Inl e \<Rightarrow> Inl e
      | Inr t \<Rightarrow> if ht_past t then Inl (BadArgument ''this time is in the past'') else Inr t)"

section \<open>UserFriendlyTime\<close>

datatype 'a arg =
    Verbatim string   \<comment> \<open>no converter: \<open>self.arg = remaining\<close>\<close>
  | Converted 'a      \<comment> \<open>\<open>self.arg = await self.converter.convert(ctx, remaining)\<close>\<close>

record 'a uft =
  u_raw :: string     \<comment> \<open>\<open>self.raw\<close>\<close>
  u_dt :: datetime    \<comment> \<open>\<open>self.dt\<close>\<close>
  u_arg :: "'a arg"   \<comment> \<open>\<open>self.arg\<close>\<close>
  u_now :: datetime   \<comment> \<open>\<open>self.now\<close>\<close>

type_synonym ('e, 'a) converter = "(string \<Rightarrow> 'e + 'a) option"

definition check_constraints ::
  "('e, 'a) converter \<Rightarrow> string \<Rightarrow> datetime \<Rightarrow> datetime \<Rightarrow> string \<Rightarrow> 'e error + 'a uft" where
  \<comment> \<open>\<open>raw\<close> and \<open>d\<close> are \<open>self.raw\<close> and \<open>self.dt\<close> as \<open>convert\<close> has set them; \<open>self.now\<close> is
      the \<open>now\<close> it passes\<close>
  "check_constraints conv raw now d remaining =
     (if dt_less d now then Inl (BadArgument ''This time is in the past.'')
      else (case conv of
              None \<Rightarrow> Inr \<lparr>u_raw = raw, u_dt = d, u_arg = Verbatim remaining, u_now = now\<rparr>
            | Some f \<Rightarrow>
                (case f remaining of
                   Inl e \<Rightarrow> Inl (Raised e)
                 | Inr v \<Rightarrow> Inr \<lparr>u_raw = raw, u_dt = d, u_arg = Converted v, u_now = now\<rparr>)))"

definition normalize_arg :: "string \<Rightarrow> string" where
  \<comment> \<open>lines 134 to 143 of \<open>convert\<close>\<close>
  "normalize_arg argument =
     (let a1 = (if endswith argument '' fra nu''
                then strip (take (length argument - 9) argument) else argument);
          a2 = (if startswith a1 ''for '' then strip (drop 4 a1) else a1)
      in if take 2 a2 = ''me''
         then (if take 6 a2 \<in> {''me to '', ''me in '', ''me at ''} then drop 6 a2 else a2)
         else a2)"

definition msg_position :: string where
  "msg_position =
     ''Time is either in an inappropriate location, which must '' @
     ''be either at the end or beginning of your input, or I '' @
     ''just flat out did not understand what you meant. Sorry.''"

definition msg_open_quote :: string where
  "msg_open_quote = ''Expected quote before time input...''"

definition msg_close_quote :: string where
  "msg_close_quote = ''If the time is quoted, you must unquote it.''"

text \<open>
  \<open>convert\<close> runs inside \<open>try ... except Exception: logger.exception(...); raise\<close>: an
  exception is logged and raised again unchanged, so the result below is the exception
  itself. The last branch keeps the initial \<open>remaining = ""\<close>; the position check makes it
  unreachable.
\<close>

definition convert ::
  "('e, 'a) converter \<Rightarrow> plus_fn \<Rightarrow> nlp_fn \<Rightarrow> datetime \<Rightarrow> string \<Rightarrow> 'e error + 'a uft" where
  "convert conv dt_plus nlp now argument =
     (case short_match regex_match argument of
        Some m \<Rightarrow>
          (case int_items (groupdict m ''0'') of
             Inl e \<Rightarrow> Inl e
           | Inr data \<Rightarrow>
               check_constraints conv argument now (dt_plus now data)
                 (strip (drop (m_end m) argument)))
      | None \<Rightarrow>
          (let a = normalize_arg argument in
           case nlp a now of
             None \<Rightarrow> check_constraints conv argument now now a
           | Some [] \<Rightarrow> check_constraints conv argument now now a
           | Some ((d, status, mbegin, mend, phrase) # rest) \<Rightarrow>
               if \<not> hasDateOrTime status then check_constraints conv argument now now a
               else if mbegin \<notin> {0, 1} \<and> mend \<noteq> length a then Inl (BadArgument msg_position)
               else
                 (let d1 = (if \<not> hasTime status then replace_time d now else d)
                  in case (if accuracy status = ACU_HALFDAY then replace_day d1 (day now + 1)
                           else Inr d1) of
                       Inl e \<Rightarrow> Inl e
                     | Inr d2 \<Rightarrow>
                         if mbegin \<in> {0, 1} then
                           (if mbegin = 1 then
                              (if a = [] then Inl IndexError
                               else if a ! 0 \<noteq> CHR 0x22 then Inl (BadArgument msg_open_quote)
                               else if \<not> (mend < length a \<and> a ! mend = CHR 0x22)
                                 then Inl (BadArgument msg_close_quote)
                               else check_constraints conv argument now d2
                                      (lstrip_chars '' ,.!'' (drop (mend + 1) a)))
                            else check_constraints conv argument now d2
                                   (lstrip_chars '' ,.!'' (drop mend a)))
                         else if length a = mend then
                           check_constraints conv argument now d2 (strip (take mbegin a))
                         else check_constraints conv argument now d2 [])))"

section \<open>human_timedelta\<close>

record relativedelta =
  years :: int
  months :: int
  days :: int
  hours :: int
  minutes :: int
  seconds :: int
  microseconds :: int

definition getattr :: "relativedelta \<Rightarrow> string \<Rightarrow> 'e error + int" where
  \<comment> \<open>\<open>getattr(delta, name)\<close>, answered for the relative fields of a \<open>relativedelta\<close>. The
      class has no \<open>__getattr__\<close>, so a name that is no attribute of it raises
      \<open>AttributeError\<close>; that is the case of all six names of line 215. (The attributes of
      the class that are left out here, such as \<open>weeks\<close> or \<open>leapdays\<close>, are never asked for.)\<close>
  "getattr delta name =
     (if name = ''years'' then Inr (years delta)
      else if name = ''months'' then Inr (months delta)
      else if name = ''days'' then Inr (days delta)
      else if name = ''hours'' then Inr (hours delta)
      else if name = ''minutes'' then Inr (minutes delta)
      else if name = ''seconds'' then Inr (seconds delta)
      else if name = ''microseconds'' then Inr (microseconds delta)
      else Inl (AttributeError name))"

definition attrs :: "string list" where
  \<comment> \<open>line 215; \<open>CHR 0xE5\<close> is the letter a-with-ring\<close>
  "attrs = [[CHR 0xE5, CHR ''r''], [CHR ''m'', CHR 0xE5] @ ''neder'', ''dage'', ''timer'',
            ''minutter'', ''sekunder'']"

fun str_nat :: "nat \<Rightarrow> string" where
  "str_nat n = (if n < 10 then [char_of (48 + n)] else str_nat (n div 10) @ [char_of (48 + n mod 10)])"

definition str_int :: "int \<Rightarrow> string" where
  \<comment> \<open>\<open>str(i)\<close> of an integer\<close>
  "str_int i = (if i < 0 then CHR ''-'' # str_nat (nat (- i)) else str_nat (nat i))"

fun collect :: "relativedelta \<Rightarrow> string list \<Rightarrow> string list \<Rightarrow> 'e error + string list" where
  \<comment> \<open>the loop of lines 218 to 226, \<open>out\<close> the list built so far\<close>
  "collect delta [] out = Inr out"
| "collect delta (attr # rest) out =
     (case getattr delta attr of
        Inl e \<Rightarrow> Inl e
      | Inr elem \<Rightarrow>
          if elem = 0 then collect delta rest out
          else if elem > 1 then collect delta rest (out @ [str_int elem @ '' '' @ attr])
          else collect delta rest (out @ [str_int elem @ '' '' @ butlast attr]))"

definition one_second :: relativedelta where
  \<comment> \<open>\<open>relativedelta(seconds=+1)\<close>\<close>
  "one_second = \<lparr>years = 0, months = 0, days = 0, hours = 0, minutes = 0, seconds = 1,
                 microseconds = 0\<rparr>"

definition human_timedelta ::
  "(datetime \<Rightarrow> datetime \<Rightarrow> relativedelta) \<Rightarrow> (relativedelta \<Rightarrow> relativedelta \<Rightarrow> relativedelta) \<Rightarrow>
   datetime \<Rightarrow> datetime \<Rightarrow> datetime option \<Rightarrow> 'e error + string" where
  \<comment> \<open>\<open>utcnow\<close> is the clock, read when no \<open>source\<close> is given\<close>
  "human_timedelta rd_between rd_plus utcnow d source =
     (let now = (case source of None \<Rightarrow> utcnow | Some s \<Rightarrow> s);
          (delta, suffix) = (if dt_less now d then (rd_between d now, [])
                             else (rd_between now d, '' siden''));
          delta1 = (if microseconds delta \<noteq> 0 \<and> seconds delta \<noteq> 0
                    then rd_plus delta one_second else delta)
      in case collect delta1 attrs [] of
           Inl e \<Rightarrow> Inl e
         | Inr output \<Rightarrow>
             Inr (if output = [] then ''now''
                  else if length output = 1 then output ! 0 @ suffix
                  else if length output = 2 then output ! 0 @ '' and '' @ output ! 1 @ suffix
                  else output ! 0 @ '', '' @ output ! 1 @ '' and '' @ output ! 2 @ suffix))"

section \<open>Notions used to state the properties\<close>

definition unit_value :: "rmatch \<Rightarrow> string \<Rightarrow> int" where
  \<comment> \<open>the integer written in a group, and 0 for a group that took no part in the match\<close>
  "unit_value m k = (case m_groups m k of None \<Rightarrow> 0 | Some v \<Rightarrow> int (digits_value v))"

definition parsed_fields :: "rmatch \<Rightarrow> (string \<times> int) list" where
  "parsed_fields m =
     [(''years'', unit_value m ''years''), (''months'', unit_value m ''months''),
      (''weeks'', unit_value m ''weeks''), (''days'', unit_value m ''days''),
      (''hours'', unit_value m ''hours''), (''minutes'', unit_value m ''minutes''),
      (''seconds'', unit_value m ''seconds'')]"

definition handed_over :: "('e, 'a) converter \<Rightarrow> string \<Rightarrow> 'a arg \<Rightarrow> bool" where
  \<comment> \<open>\<open>self.arg\<close> is what \<open>check_constraints\<close> makes of the remaining text \<open>rem\<close>: the text
      itself, or the value the converter returns for it\<close>
  "handed_over conv rem a =
     (case conv of
        None \<Rightarrow> a = Verbatim rem
      | Some f \<Rightarrow> (case a of Converted v \<Rightarrow> f rem = Inr v | Verbatim t \<Rightarrow> False))"

definition digit_caps :: "captures \<Rightarrow> bool" where
  \<comment> \<open>every captured text is a non-empty run of digits\<close>
  "digit_caps c = (\<forall>k v. c k = Some v \<longrightarrow> v \<noteq> [] \<and> list_all is_digit v)"

primrec digit_groups :: "rx \<Rightarrow> bool" where
  \<comment> \<open>every group of the pattern is \<open>[0-9]{lo,hi}\<close> with \<open>lo\<close> at least 1\<close>
  "digit_groups (Lit l) = True"
| "digit_groups Digit = True"
| "digit_groups (Cat a b) = (digit_groups a \<and> digit_groups b)"
| "digit_groups (Alt a b) = (digit_groups a \<and> digit_groups b)"
| "digit_groups (Opt a) = digit_groups a"
| "digit_groups (Rep a lo hi) = digit_groups a"
| "digit_groups (Grp n a) = (case a of Rep Digit lo hi \<Rightarrow> 1 \<le> lo | _ \<Rightarrow> False)"

definition advances :: "mstate \<Rightarrow> mstate \<Rightarrow> bool" where
  \<comment> \<open>from \<open>st\<close> to \<open>st'\<close> no text came back, and a group was captured only if text was used up\<close>
  "advances st st' =
     (length (fst st') \<le> length (fst st) \<and>
      (\<forall>k. snd st' k \<noteq> None \<longrightarrow> snd st k \<noteq> None \<or> length (fst st') < length (fst st)))"

section \<open>Concrete inputs\<close>

definition at_date :: "int \<Rightarrow> int \<Rightarrow> int \<Rightarrow> int \<Rightarrow> int \<Rightarrow> int \<Rightarrow> int \<Rightarrow> datetime" where
  "at_date y mo d h mi sec us =
     \<lparr>year = y, month = mo, day = d, hour = h, minute = mi, second = sec, microsecond = us\<rparr>"

definition no_converter :: "(unit, unit) converter" where
  "no_converter = None"

definition resolver_finds :: "datetime \<Rightarrow> nat \<Rightarrow> nat \<Rightarrow> nat \<Rightarrow> string \<Rightarrow> nlp_fn" where
  \<comment> \<open>a resolver that reports one phrase, at \<open>[b, e)\<close>, with the instant and accuracy given\<close>
  "resolver_finds d acc b e phrase = (\<lambda>a n. Some [(d, \<lparr>accuracy = acc\<rparr>, b, e, phrase)])"

definition parser_finds :: "datetime \<Rightarrow> nat \<Rightarrow> parse_fn" where
  "parser_finds d acc = (\<lambda>a n. (d, \<lparr>accuracy = acc\<rparr>))"

definition shift_days_hours :: plus_fn where
  \<comment> \<open>stands for dateutil's addition on offsets of days and hours that stay inside the day
      and the month\<close>
  "shift_days_hours n data =
     n\<lparr>day := day n + the (map_of data ''days''), hour := hour n + the (map_of data ''hours'')\<rparr>"

definition delta_of :: "int \<Rightarrow> int \<Rightarrow> int \<Rightarrow> int \<Rightarrow> int \<Rightarrow> int \<Rightarrow> int \<Rightarrow> relativedelta" where
  "delta_of y mo d h mi sec us =
     \<lparr>years = y, months = mo, days = d, hours = h, minutes = mi, seconds = sec,
      microseconds = us\<rparr>"

definition quoted :: "string \<Rightarrow> string" where
  \<comment> \<open>the text between two double quotes\<close>
  "quoted t = [CHR 0x22] @ t @ [CHR 0x22]"

section \<open>The groups of the pattern capture digits\<close>

lemma run_digits:
  "st' \<in> set (run (Rep Digit lo hi) (s, c)) \<Longrightarrow>
   \<exists>j. fst st' = drop j s \<and> snd st' = c \<and> lo \<le> j \<and> j \<le> length s \<and> list_all is_digit (take j s)"
proof (induction hi arbitrary: lo s)
  case 0
  then show ?case by (auto split: if_splits intro: exI[of _ 0])
next
  case (Suc hi)
  from Suc.prems consider
      (more) x xs where "s = x # xs" "is_digit x" "st' \<in> set (run (Rep Digit (lo - 1) hi) (xs, c))"
    | (stop) "lo = 0" "st' = (s, c)"
    by (auto split: list.splits if_splits)
  then show ?case
  proof cases
    case more
    from Suc.IH[OF more(3)] obtain j where
      j: "fst st' = drop j xs" "snd st' = c" "lo - 1 \<le> j" "j \<le> length xs"
         "list_all is_digit (take j xs)"
      by blast
    show ?thesis
      using j more(1,2) by (intro exI[of _ "Suc j"]) auto
  next
    case stop
    then show ?thesis by (intro exI[of _ 0]) auto
  qed
qed

lemma run_digit_caps:
  "digit_groups r \<Longrightarrow> digit_caps (snd st) \<Longrightarrow> st' \<in> set (run r st) \<Longrightarrow> digit_caps (snd st')"
proof (induction r st arbitrary: st' rule: run.induct)
  case (1 l s c)
  then show ?case by (auto split: if_splits)
next
  case (2 s c)
  then show ?case by (auto split: list.splits if_splits)
next
  case (3 a b st)
  from "3.prems"(3) obtain mid where mid: "mid \<in> set (run a st)" "st' \<in> set (run b mid)"
    by auto
  have "digit_caps (snd mid)"
    using "3.IH"(1)[OF _ "3.prems"(2) mid(1)] "3.prems"(1) by simp
  then show ?case
    using "3.IH"(2)[OF mid(1) _ _ mid(2)] "3.prems"(1) by simp
next
  case (4 a b st)
  from "4.prems"(3) have "st' \<in> set (run a st) \<or> st' \<in> set (run b st)" by simp
  then show ?case
    using "4.IH"(1)[OF _ "4.prems"(2)] "4.IH"(2)[OF _ "4.prems"(2)] "4.prems"(1)
    by (cases st') auto
next
  case (5 a st)
  from "5.prems"(3) have "st' \<in> set (run a st) \<or> st' = st" by auto
  then show ?case
    using "5.IH"[OF _ "5.prems"(2)] "5.prems"(1,2) by (cases st') auto
next
  case (6 a lo st)
  then show ?case by (auto split: if_splits)
next
  case (7 a lo hi st)
  from "7.prems"(3) consider
      (more) mid where "mid \<in> set (run a st)" "st' \<in> set (run (Rep a (lo - 1) hi) mid)"
    | (stop) "st' = st"
    by (auto split: if_splits)
  then show ?case
  proof cases
    case more
    have "digit_caps (snd mid)"
      using "7.IH"(1)[OF _ "7.prems"(2) more(1)] "7.prems"(1) by simp
    then show ?thesis
      using "7.IH"(2)[OF more(1) _ _ more(2)] "7.prems"(1) by simp
  next
    case stop
    then show ?thesis using "7.prems"(2) by simp
  qed
next
  case (8 n a s c)
  from "8.prems"(1) obtain lo hi where a: "a = Rep Digit lo hi" "1 \<le> lo"
    by (auto split: rx.splits)
  from "8.prems"(3) obtain s' c' where
    st': "st' = (s', c'(n \<mapsto> take (length s - length s') s))" "(s', c') \<in> set (run a (s, c))"
    by auto
  from run_digits[OF st'(2)[unfolded a(1)]] obtain j where
    j: "s' = drop j s" "c' = c" "lo \<le> j" "j \<le> length s" "list_all is_digit (take j s)"
    by auto
  have "take (length s - length s') s = take j s" using j by simp
  moreover have "take j s \<noteq> []" using j a(2) by auto
  ultimately show ?case
    using "8.prems"(2) j st'(1) by (auto simp: digit_caps_def)
qed

lemma advances_refl: "advances st st"
  by (simp add: advances_def)

lemma advances_trans:
  assumes ab: "advances a b" and bc: "advances b c"
  shows "advances a c"
proof -
  have l1: "length (fst b) \<le> length (fst a)" and l2: "length (fst c) \<le> length (fst b)"
    using ab bc by (simp_all add: advances_def)
  have "snd a k \<noteq> None \<or> length (fst c) < length (fst a)" if k: "snd c k \<noteq> None" for k
  proof -
    from bc k have "snd b k \<noteq> None \<or> length (fst c) < length (fst b)"
      by (simp add: advances_def)
    then show ?thesis
    proof
      assume "snd b k \<noteq> None"
      with ab have "snd a k \<noteq> None \<or> length (fst b) < length (fst a)"
        by (simp add: advances_def)
      then show ?thesis using l2 by auto
    next
      assume "length (fst c) < length (fst b)"
      then show ?thesis using l1 by simp
    qed
  qed
  then show ?thesis using l1 l2 by (simp add: advances_def)
qed

lemma run_advances:
  "digit_groups r \<Longrightarrow> st' \<in> set (run r st) \<Longrightarrow> advances st st'"
proof (induction r st arbitrary: st' rule: run.induct)
  case (1 l s c)
  then show ?case by (auto simp: advances_def split: if_splits)
next
  case (2 s c)
  then show ?case by (auto simp: advances_def split: list.splits if_splits)
next
  case (3 a b st)
  from "3.prems"(2) obtain mid where mid: "mid \<in> set (run a st)" "st' \<in> set (run b mid)"
    by auto
  have "advances st mid" using "3.IH"(1)[OF _ mid(1)] "3.prems"(1) by simp
  moreover have "advances mid st'" using "3.IH"(2)[OF mid(1) _ mid(2)] "3.prems"(1) by simp
  ultimately show ?case by (rule advances_trans)
next
  case (4 a b st)
  from "4.prems"(2) have "st' \<in> set (run a st) \<or> st' \<in> set (run b st)" by simp
  then show ?case using "4.IH" "4.prems"(1) by (cases st') auto
next
  case (5 a st)
  from "5.prems"(2) have "st' \<in> set (run a st) \<or> st' = st" by auto
  then show ?case using "5.IH" "5.prems"(1) advances_refl by (cases st') auto
next
  case (6 a lo st)
  then show ?case by (auto simp: advances_refl split: if_splits)
next
  case (7 a lo hi st)
  from "7.prems"(2) consider
      (more) mid where "mid \<in> set (run a st)" "st' \<in> set (run (Rep a (lo - 1) hi) mid)"
    | (stop) "st' = st"
    by (auto split: if_splits)
  then show ?case
  proof cases
    case more
    have "advances st mid" using "7.IH"(1)[OF _ more(1)] "7.prems"(1) by simp
    moreover have "advances mid st'" using "7.IH"(2)[OF more(1) _ more(2)] "7.prems"(1) by simp
    ultimately show ?thesis by (rule advances_trans)
  next
    case stop
    then show ?thesis by (simp add: advances_refl)
  qed
next
  case (8 n a s c)
  from "8.prems"(1) obtain lo hi where a: "a = Rep Digit lo hi" "1 \<le> lo"
    by (auto split: rx.splits)
  from "8.prems"(2) obtain s' c' where
    st': "st' = (s', c'(n \<mapsto> take (length s - length s') s))" "(s', c') \<in> set (run a (s, c))"
    by auto
  from run_digits[OF st'(2)[unfolded a(1)]] obtain j where
    j: "s' = drop j s" "c' = c" "lo \<le> j" "j \<le> length s"
    by auto
  have "length s' < length s" using j a(2) by simp
  then show ?case by (simp add: advances_def st'(1))
qed

lemma digit_groups_compiled: "digit_groups compiled"
  by (simp add: compiled_def unit_group_def)

lemma digit_caps_empty: "digit_caps Map.empty"
  by (simp add: digit_caps_def)

lemma regex_match_run:
  assumes "regex_match r s = Some m"
  obtains st where "st \<in> set (run r (s, Map.empty))" "m = to_match s st"
  using assms by (auto simp: regex_match_def split: list.splits)

lemma regex_fullmatch_run:
  assumes "regex_fullmatch r s = Some m"
  obtains st where "st \<in> set (run r (s, Map.empty))" "m = to_match s st"
proof -
  from assms obtain st rest where
    f: "filter (\<lambda>st. fst st = []) (run r (s, Map.empty)) = st # rest" and
    m: "m = to_match s st"
    by (auto simp: regex_fullmatch_def split: list.splits)
  have "st \<in> set (filter (\<lambda>st. fst st = []) (run r (s, Map.empty)))"
    by (simp add: f)
  then have "st \<in> set (run r (s, Map.empty))" by simp
  then show ?thesis using m that by blast
qed

lemma run_compiled_match:
  assumes "st \<in> set (run compiled (s, Map.empty))"
  shows "digit_caps (m_groups (to_match s st))"
    and "m_groups (to_match s st) k \<noteq> None \<Longrightarrow> group0 s (to_match s st) \<noteq> []"
proof -
  have "digit_caps (snd st)"
    using run_digit_caps[OF digit_groups_compiled _ assms] digit_caps_empty by simp
  then show "digit_caps (m_groups (to_match s st))" by (simp add: to_match_def)
next
  assume k: "m_groups (to_match s st) k \<noteq> None"
  have "advances (s, Map.empty) st" by (rule run_advances[OF digit_groups_compiled assms])
  then have "length (fst st) < length s"
    using k by (auto simp: advances_def to_match_def)
  then show "group0 s (to_match s st) \<noteq> []"
    by (auto simp: group0_def to_match_def)
qed

lemma py_int_default: "py_int ''0'' = Inr 0"
  by (simp add: py_int_def is_digit_def digits_value_def digit_val_def)

lemma py_int_group:
  "digit_caps c \<Longrightarrow> py_int (case c k of None \<Rightarrow> ''0'' | Some v \<Rightarrow> v) =
     Inr (case c k of None \<Rightarrow> 0 | Some v \<Rightarrow> int (digits_value v))"
  by (cases "c k") (simp_all add: py_int_default, simp add: py_int_def digit_caps_def)

lemma int_items_groupdict:
  assumes "digit_caps (m_groups m)"
  shows "int_items (groupdict m ''0'') = Inr (parsed_fields m)"
  by (simp add: groupdict_def group_names_def py_int_group[OF assms] unit_value_def
      parsed_fields_def)

lemma short_match_fullmatch:
  assumes "regex_fullmatch compiled s = Some m" "m_groups m k \<noteq> None"
  shows "short_match regex_fullmatch s = Some m" "int_items (groupdict m ''0'') = Inr (parsed_fields m)"
proof -
  from assms(1) obtain st where st: "st \<in> set (run compiled (s, Map.empty))" "m = to_match s st"
    by (rule regex_fullmatch_run)
  show "short_match regex_fullmatch s = Some m"
    using run_compiled_match(2)[OF st(1), of k] assms st(2) by (simp add: short_match_def)
  show "int_items (groupdict m ''0'') = Inr (parsed_fields m)"
    using run_compiled_match(1)[OF st(1)] st(2) by (simp add: int_items_groupdict)
qed

lemma short_match_match:
  assumes "regex_match compiled s = Some m" "m_groups m k \<noteq> None"
  shows "short_match regex_match s = Some m" "int_items (groupdict m ''0'') = Inr (parsed_fields m)"
proof -
  from assms(1) obtain st where st: "st \<in> set (run compiled (s, Map.empty))" "m = to_match s st"
    by (rule regex_match_run)
  show "short_match regex_match s = Some m"
    using run_compiled_match(2)[OF st(1), of k] assms st(2) by (simp add: short_match_def)
  show "int_items (groupdict m ''0'') = Inr (parsed_fields m)"
    using run_compiled_match(1)[OF st(1)] st(2) by (simp add: int_items_groupdict)
qed

lemma grammar_examples:
  "Option.is_none (short_match regex_fullmatch [])"
  "Option.is_none (short_match regex_fullmatch ''abc'')"
  "Option.is_none (short_match regex_fullmatch ''10y'')"
  "Option.is_none (short_match regex_fullmatch ''10M'')"
  "map (unit_value (the (short_match regex_fullmatch ''1y2mo3w4d5h6m7s''))) group_names =
     [1, 2, 3, 4, 5, 6, 7]"
  "map (unit_value (the (short_match regex_fullmatch ''10m''))) group_names =
     [0, 0, 0, 0, 0, 10, 0]"
  "map (unit_value (the (short_match regex_match ''1st of May''))) group_names =
     [0, 0, 0, 0, 0, 0, 1]"
  by code_simp+

lemma check_constraints_Inr:
  assumes "check_constraints conv raw now d remaining = Inr r"
  shows "u_dt r = d" "u_now r = now" "u_raw r = raw" "\<not> dt_less d now"
  using assms by (auto simp: check_constraints_def split: if_splits option.splits sum.splits)

section \<open>The short-duration grammar\<close>

text \<open>
  C1. Whenever the pattern matches and at least one of its groups takes part in the match
  (a full match in \<open>ShortTime\<close>, a match at the start of the text in
  \<open>UserFriendlyTime.convert\<close>), the instant is \<open>now + relativedelta(fields)\<close>, the fields
  being the integers written in the groups and 0 for every group that is absent. In
  \<open>convert\<close> that instant and the rest of the text, stripped, go to \<open>check_constraints\<close>,
  so a conversion that returns carries that instant.
\<close>

theorem short_time_resolves:
  "(regex_fullmatch compiled s = Some m \<and> m_groups m k \<noteq> None \<longrightarrow>
      ShortTime dt_plus now s = Inr (dt_plus now (parsed_fields m))) \<and>
   (regex_match compiled s = Some m' \<and> m_groups m' k' \<noteq> None \<longrightarrow>
      convert conv dt_plus nlp now s =
        check_constraints conv s now (dt_plus now (parsed_fields m')) (strip (drop (m_end m') s)) \<and>
      (\<forall>r. convert conv dt_plus nlp now s = Inr r \<longrightarrow>
           u_dt r = dt_plus now (parsed_fields m')))"
proof (intro conjI impI)
  assume "regex_fullmatch compiled s = Some m \<and> m_groups m k \<noteq> None"
  then have "regex_fullmatch compiled s = Some m" "m_groups m k \<noteq> None" by simp_all
  note sm = short_match_fullmatch[OF this]
  show "ShortTime dt_plus now s = Inr (dt_plus now (parsed_fields m))"
    by (simp add: ShortTime_def sm)
next
  assume "regex_match compiled s = Some m' \<and> m_groups m' k' \<noteq> None"
  then have "regex_match compiled s = Some m'" "m_groups m' k' \<noteq> None" by simp_all
  note sm = short_match_match[OF this]
  show eq: "convert conv dt_plus nlp now s =
        check_constraints conv s now (dt_plus now (parsed_fields m')) (strip (drop (m_end m') s))"
    by (simp add: convert_def sm)
  show "\<forall>r. convert conv dt_plus nlp now s = Inr r \<longrightarrow> u_dt r = dt_plus now (parsed_fields m')"
  proof (intro allI impI)
    fix r
    assume "convert conv dt_plus nlp now s = Inr r"
    then show "u_dt r = dt_plus now (parsed_fields m')"
      unfolding eq by (rule check_constraints_Inr(1))
  qed
qed

theorem short_time_resolves_witness:
  "ShortTime (\<lambda>n data. n\<lparr>day := day n + the (map_of data ''days''),
                           hour := hour n + the (map_of data ''hours'')\<rparr>)
     \<lparr>year = 2026, month = 11, day = 3, hour = 9, minute = 30, second = 0, microsecond = 0\<rparr>
     ''2d12h'' =
   (Inr \<lparr>year = 2026, month = 11, day = 5, hour = 21, minute = 30, second = 0, microsecond = 0\<rparr>
      :: unit error + datetime) \<and>
   u_dt (projr (convert (None :: (unit, unit) converter)
      (\<lambda>n data. n\<lparr>day := day n + the (map_of data ''days''),
                    hour := hour n + the (map_of data ''hours'')\<rparr>)
      (\<lambda>a n. None)
      \<lparr>year = 2026, month = 11, day = 3, hour = 9, minute = 30, second = 0, microsecond = 0\<rparr>
      ''2d12h feed the cat'')) =
   \<lparr>year = 2026, month = 11, day = 5, hour = 21, minute = 30, second = 0, microsecond = 0\<rparr>"
proof -
  let ?f = "\<lambda>n data. n\<lparr>day := day n + the (map_of data ''days''),
                           hour := hour n + the (map_of data ''hours'')\<rparr>"
  let ?n = "\<lparr>year = 2026, month = 11, day = 3, hour = 9, minute = 30, second = 0,
             microsecond = 0\<rparr>"
  let ?m = "the (regex_fullmatch compiled ''2d12h'')"
  let ?m' = "the (regex_match compiled ''2d12h feed the cat'')"
  have "\<not> Option.is_none (regex_fullmatch compiled ''2d12h'')" "m_groups ?m ''days'' \<noteq> None"
    by code_simp+
  then have full: "regex_fullmatch compiled ''2d12h'' = Some ?m \<and> m_groups ?m ''days'' \<noteq> None"
    by (simp add: Option.is_none_def)
  have "\<not> Option.is_none (regex_match compiled ''2d12h feed the cat'')"
    "m_groups ?m' ''days'' \<noteq> None"
    by code_simp+
  then have pre: "regex_match compiled ''2d12h feed the cat'' = Some ?m' \<and>
      m_groups ?m' ''days'' \<noteq> None"
    by (simp add: Option.is_none_def)
  have fields: "parsed_fields ?m =
      [(''years'', 0), (''months'', 0), (''weeks'', 0), (''days'', 2), (''hours'', 12),
       (''minutes'', 0), (''seconds'', 0)]"
    "parsed_fields ?m' =
      [(''years'', 0), (''months'', 0), (''weeks'', 0), (''days'', 2), (''hours'', 12),
       (''minutes'', 0), (''seconds'', 0)]"
    by code_simp+
  have rest: "strip (drop (m_end ?m') ''2d12h feed the cat'') = ''feed the cat''"
    by code_simp
  note t1 = short_time_resolves[where s = "''2d12h''" and m = ?m and k = "''days''"
      and dt_plus = ?f and now = ?n]
  note t2 = short_time_resolves[where s = "''2d12h feed the cat''" and m' = ?m'
      and k' = "''days''" and dt_plus = ?f and now = ?n
      and conv = "None :: (unit, unit) converter" and nlp = "\<lambda>a n. None"]
  from t1 full have 1: "ShortTime ?f ?n ''2d12h'' = (Inr (?f ?n (parsed_fields ?m)) :: unit error + datetime)"
    by blast
  from t2 pre have 2: "convert (None :: (unit, unit) converter) ?f (\<lambda>a n. None) ?n ''2d12h feed the cat'' =
      check_constraints None ''2d12h feed the cat'' ?n (?f ?n (parsed_fields ?m'))
        (strip (drop (m_end ?m') ''2d12h feed the cat''))"
    by blast
  show ?thesis
    unfolding 1 2 fields rest
    by (simp add: check_constraints_def dt_less_def dt_key_def)
qed

section \<open>The path through the natural-language resolver\<close>

lemma dt_le_iff: "dt_le a b \<longleftrightarrow> \<not> dt_less b a"
  by (simp add: dt_le_def dt_less_def not_less)

lemma check_constraints_handed:
  assumes "check_constraints conv raw now d remaining = Inr r"
  shows "handed_over conv remaining (u_arg r)"
  using assms
  by (auto simp: check_constraints_def handed_over_def split: if_splits option.splits sum.splits)

lemma halfday_hasTime: "accuracy status = ACU_HALFDAY \<Longrightarrow> hasTime status"
  by (simp add: hasTime_def ACU_HALFDAY_def ACU_TIME_def)

lemma convert_unmatched:
  assumes "short_match regex_match s = None"
  shows "convert conv dt_plus nlp now s =
     (let a = normalize_arg s in
      case nlp a now of
        None \<Rightarrow> check_constraints conv s now now a
      | Some [] \<Rightarrow> check_constraints conv s now now a
      | Some ((d, status, mbegin, mend, phrase) # rest) \<Rightarrow>
          if \<not> hasDateOrTime status then check_constraints conv s now now a
          else if mbegin \<notin> {0, 1} \<and> mend \<noteq> length a then Inl (BadArgument msg_position)
          else
            (let d1 = (if \<not> hasTime status then replace_time d now else d)
             in case (if accuracy status = ACU_HALFDAY then replace_day d1 (day now + 1)
                      else Inr d1) of
                  Inl e \<Rightarrow> Inl e
                | Inr d2 \<Rightarrow>
                    if mbegin \<in> {0, 1} then
                      (if mbegin = 1 then
                         (if a = [] then Inl IndexError
                          else if a ! 0 \<noteq> CHR 0x22 then Inl (BadArgument msg_open_quote)
                          else if \<not> (mend < length a \<and> a ! mend = CHR 0x22)
                            then Inl (BadArgument msg_close_quote)
                          else check_constraints conv s now d2
                                 (lstrip_chars '' ,.!'' (drop (mend + 1) a)))
                       else check_constraints conv s now d2
                              (lstrip_chars '' ,.!'' (drop mend a)))
                    else if length a = mend then
                      check_constraints conv s now d2 (strip (take mbegin a))
                    else check_constraints conv s now d2 []))"
  by (simp add: convert_def assms)

lemma convert_resolved:
  assumes "short_match regex_match s = None"
    and "nlp (normalize_arg s) now = Some ((d, status, b, e, phrase) # rest)"
    and "hasDateOrTime status"
  shows "convert conv dt_plus nlp now s =
     (if b \<notin> {0, 1} \<and> e \<noteq> length (normalize_arg s) then Inl (BadArgument msg_position)
      else
        case (if accuracy status = ACU_HALFDAY
              then replace_day (if \<not> hasTime status then replace_time d now else d) (day now + 1)
              else Inr (if \<not> hasTime status then replace_time d now else d)) of
          Inl err \<Rightarrow> Inl err
        | Inr d2 \<Rightarrow>
            if b = 1 then
              (if normalize_arg s = [] then Inl IndexError
               else if normalize_arg s ! 0 \<noteq> CHR 0x22 then Inl (BadArgument msg_open_quote)
               else if \<not> (e < length (normalize_arg s) \<and> normalize_arg s ! e = CHR 0x22)
                 then Inl (BadArgument msg_close_quote)
               else check_constraints conv s now d2
                      (lstrip_chars '' ,.!'' (drop (e + 1) (normalize_arg s))))
            else if b = 0 then
              check_constraints conv s now d2 (lstrip_chars '' ,.!'' (drop e (normalize_arg s)))
            else check_constraints conv s now d2 (strip (take b (normalize_arg s))))"
  unfolding convert_unmatched[OF assms(1)] Let_def assms(2)
  using assms(3) by (auto split: sum.splits)

lemma convert_via_check:
  assumes "convert conv dt_plus nlp now s = Inr r"
  shows "\<exists>d remaining. check_constraints conv s now d remaining = Inr r"
proof (cases "short_match regex_match s")
  case (Some m)
  with assms show ?thesis
    by (auto simp: convert_def split: sum.splits)
next
  case None
  show ?thesis
  proof (cases "nlp (normalize_arg s) now")
    case n: None
    with assms show ?thesis
      unfolding convert_unmatched[OF None] Let_def by auto
  next
    case (Some elements)
    show ?thesis
    proof (cases elements)
      case Nil
      with assms Some show ?thesis
        unfolding convert_unmatched[OF None] Let_def by auto
    next
      case (Cons x rest)
      obtain d status b e phrase where x: "x = (d, status, b, e, phrase)"
        by (cases x) auto
      show ?thesis
      proof (cases "hasDateOrTime status")
        case False
        with assms Some Cons x show ?thesis
          unfolding convert_unmatched[OF None] Let_def by auto
      next
        case True
        from assms show ?thesis
          unfolding convert_resolved[where nlp = nlp, OF None Some[unfolded Cons x] True]
          by (auto split: if_splits sum.splits)
      qed
    qed
  qed
qed

section \<open>Claims about UserFriendlyTime.convert\<close>

text \<open>
  C10. Every conversion that returns, by whichever path, carries an instant that is not
  before the reference now, which is the \<open>now\<close> the result records: \<open>check_constraints\<close>
  stands at the end of every path and refuses an earlier instant.
\<close>

theorem convert_never_past:
  "convert conv dt_plus nlp now s = Inr r \<Longrightarrow> dt_le now (u_dt r) \<and> u_now r = now"
proof -
  assume "convert conv dt_plus nlp now s = Inr r"
  then obtain d remaining where c: "check_constraints conv s now d remaining = Inr r"
    using convert_via_check by blast
  show ?thesis
    using check_constraints_Inr(1,2,4)[OF c] by (simp add: dt_le_iff)
qed

theorem convert_never_past_witness:
  "convert (None :: (unit, unit) converter) (\<lambda>n data. n)
     (\<lambda>a n. Some [(\<lparr>year = 2026, month = 11, day = 4, hour = 9, minute = 0, second = 0,
                      microsecond = 0\<rparr>, \<lparr>accuracy = 8\<rparr>, 0, 8, ''tomorrow'')])
     \<lparr>year = 2026, month = 11, day = 3, hour = 17, minute = 45, second = 10, microsecond = 250\<rparr>
     ''tomorrow feed the cat'' =
   Inr \<lparr>u_raw = ''tomorrow feed the cat'',
        u_dt = \<lparr>year = 2026, month = 11, day = 4, hour = 17, minute = 45, second = 10,
                 microsecond = 250\<rparr>,
        u_arg = Verbatim ''feed the cat'',
        u_now = \<lparr>year = 2026, month = 11, day = 3, hour = 17, minute = 45, second = 10,
                  microsecond = 250\<rparr>\<rparr> \<and>
   dt_le \<lparr>year = 2026, month = 11, day = 3, hour = 17, minute = 45, second = 10, microsecond = 250\<rparr>
     \<lparr>year = 2026, month = 11, day = 4, hour = 17, minute = 45, second = 10, microsecond = 250\<rparr>"
proof -
  have c: "convert (None :: (unit, unit) converter) (\<lambda>n data. n)
     (\<lambda>a n. Some [(\<lparr>year = 2026, month = 11, day = 4, hour = 9, minute = 0, second = 0,
                      microsecond = 0\<rparr>, \<lparr>accuracy = 8\<rparr>, 0, 8, ''tomorrow'')])
     \<lparr>year = 2026, month = 11, day = 3, hour = 17, minute = 45, second = 10, microsecond = 250\<rparr>
     ''tomorrow feed the cat'' =
   Inr \<lparr>u_raw = ''tomorrow feed the cat'',
        u_dt = \<lparr>year = 2026, month = 11, day = 4, hour = 17, minute = 45, second = 10,
                 microsecond = 250\<rparr>,
        u_arg = Verbatim ''feed the cat'',
        u_now = \<lparr>year = 2026, month = 11, day = 3, hour = 17, minute = 45, second = 10,
                  microsecond = 250\<rparr>\<rparr>"
    by code_simp
  from convert_never_past[OF c] c show ?thesis by simp
qed

text \<open>
  C2. When the resolver reported a date or time and the conversion returns, the remaining
  text handed to \<open>check_constraints\<close> (offsets are into the argument as normalised by the
  lines before the resolver runs) is: for a match that begins at 0, what follows the match
  without its leading blanks, commas, full stops and exclamation marks; for a match that
  begins at 1, which is then enclosed in double quotes, what follows the closing quote,
  stripped the same way; otherwise the match ends the text, and it is what precedes the
  match, stripped of white space.
\<close>

theorem remaining_text:
  assumes "short_match regex_match s = None"
    and "nlp (normalize_arg s) now = Some ((d, status, b, e, phrase) # rest)"
    and "hasDateOrTime status"
    and "convert conv dt_plus nlp now s = Inr r"
  shows "(b = 0 \<longrightarrow>
            handed_over conv (lstrip_chars '' ,.!'' (drop e (normalize_arg s))) (u_arg r)) \<and>
         (b = 1 \<longrightarrow>
            normalize_arg s ! 0 = CHR 0x22 \<and> e < length (normalize_arg s) \<and>
            normalize_arg s ! e = CHR 0x22 \<and>
            handed_over conv (lstrip_chars '' ,.!'' (drop (e + 1) (normalize_arg s))) (u_arg r)) \<and>
         (b \<notin> {0, 1} \<longrightarrow>
            e = length (normalize_arg s) \<and>
            handed_over conv (strip (take b (normalize_arg s))) (u_arg r))"
  using assms(4)
  unfolding convert_resolved[where nlp = nlp, OF assms(1,2,3)]
  by (auto split: if_splits sum.splits dest: check_constraints_handed)

theorem remaining_text_witness:
  "u_arg (projr (convert no_converter shift_days_hours
       (resolver_finds (at_date 2026 11 4 9 0 0 0) 8 0 8 ''tomorrow'')
       (at_date 2026 11 3 17 45 10 250) ''tomorrow, feed the cat'')) = Verbatim ''feed the cat'' \<and>
   u_arg (projr (convert no_converter shift_days_hours
       (resolver_finds (at_date 2026 11 6 17 45 10 250) 8 1 7 ''3 days'')
       (at_date 2026 11 3 17 45 10 250) (quoted ''3 days'' @ '' do the thing''))) =
     Verbatim ''do the thing'' \<and>
   u_arg (projr (convert no_converter shift_days_hours
       (resolver_finds (at_date 2026 11 4 9 0 0 0) 8 13 21 ''tomorrow'')
       (at_date 2026 11 3 17 45 10 250) ''feed the cat tomorrow'')) = Verbatim ''feed the cat''"
proof -
  let ?n = "at_date 2026 11 3 17 45 10 250"
  let ?s1 = "''tomorrow, feed the cat''"
  let ?nlp1 = "resolver_finds (at_date 2026 11 4 9 0 0 0) 8 0 8 ''tomorrow''"
  let ?s2 = "quoted ''3 days'' @ '' do the thing''"
  let ?nlp2 = "resolver_finds (at_date 2026 11 6 17 45 10 250) 8 1 7 ''3 days''"
  let ?s3 = "''feed the cat tomorrow''"
  let ?nlp3 = "resolver_finds (at_date 2026 11 4 9 0 0 0) 8 13 21 ''tomorrow''"
  have ok: "hasDateOrTime \<lparr>accuracy = 8\<rparr>"
    by (simp add: hasDateOrTime_def)
  have "Option.is_none (short_match regex_match ?s1)" "Option.is_none (short_match regex_match ?s2)"
    "Option.is_none (short_match regex_match ?s3)"
    by code_simp+
  then have u: "short_match regex_match ?s1 = None" "short_match regex_match ?s2 = None"
    "short_match regex_match ?s3 = None"
    by (simp_all add: Option.is_none_def)
  let ?r1 = "\<lparr>u_raw = ?s1, u_dt = at_date 2026 11 4 17 45 10 250,
              u_arg = Verbatim ''feed the cat'' :: unit arg, u_now = ?n\<rparr>"
  let ?r2 = "\<lparr>u_raw = ?s2, u_dt = at_date 2026 11 6 17 45 10 250,
              u_arg = Verbatim ''do the thing'' :: unit arg, u_now = ?n\<rparr>"
  let ?r3 = "\<lparr>u_raw = ?s3, u_dt = at_date 2026 11 4 17 45 10 250,
              u_arg = Verbatim ''feed the cat'' :: unit arg, u_now = ?n\<rparr>"
  have c:
    "convert no_converter shift_days_hours ?nlp1 ?n ?s1 = Inr ?r1"
    "convert no_converter shift_days_hours ?nlp2 ?n ?s2 = Inr ?r2"
    "convert no_converter shift_days_hours ?nlp3 ?n ?s3 = Inr ?r3"
    by code_simp+
  have rems: "lstrip_chars '' ,.!'' (drop 8 (normalize_arg ?s1)) = ''feed the cat''"
    "lstrip_chars '' ,.!'' (drop (7 + 1) (normalize_arg ?s2)) = ''do the thing''"
    "strip (take 13 (normalize_arg ?s3)) = ''feed the cat''"
    by code_simp+
  have 1: "handed_over no_converter (lstrip_chars '' ,.!'' (drop 8 (normalize_arg ?s1)))
      (u_arg ?r1)"
    using remaining_text[where nlp = ?nlp1, OF u(1) _ ok c(1)]
    by (simp add: resolver_finds_def)
  have 2: "handed_over no_converter (lstrip_chars '' ,.!'' (drop (7 + 1) (normalize_arg ?s2)))
      (u_arg ?r2)"
    using remaining_text[where nlp = ?nlp2, OF u(2) _ ok c(2)]
    by (simp add: resolver_finds_def)
  have 3: "handed_over no_converter (strip (take 13 (normalize_arg ?s3)))
      (u_arg ?r3)"
    using remaining_text[where nlp = ?nlp3, OF u(3) _ ok c(3)]
    by (simp add: resolver_finds_def)
  from 1 2 3 show ?thesis
    unfolding c by simp
qed

text \<open>
  C6. When the resolver found a date or time but no time of day, the hour, minute, second
  and microsecond of the candidate are replaced by those of the reference now and its date
  is kept: \<open>HumanTime\<close> stores that instant, and so does every conversion of
  \<open>UserFriendlyTime.convert\<close> that returns.
\<close>

theorem time_of_day_defaulting:
  "(parseDT s now = (d, status) \<and> hasDateOrTime status \<and> \<not> hasTime status \<longrightarrow>
      HumanTime parseDT now s =
        Inr \<lparr>ht_dt = d\<lparr>hour := hour now, minute := minute now, second := second now,
                         microsecond := microsecond now\<rparr>,
             ht_past = dt_less (d\<lparr>hour := hour now, minute := minute now, second := second now,
                                   microsecond := microsecond now\<rparr>) now\<rparr>) \<and>
   (short_match regex_match s = None \<and>
    nlp (normalize_arg s) now = Some ((d', status', b, e, phrase) # rest) \<and>
    hasDateOrTime status' \<and> \<not> hasTime status' \<and>
    convert conv dt_plus nlp now s = Inr r \<longrightarrow>
      u_dt r = d'\<lparr>hour := hour now, minute := minute now, second := second now,
                   microsecond := microsecond now\<rparr>)"
proof (intro conjI impI)
  assume "parseDT s now = (d, status) \<and> hasDateOrTime status \<and> \<not> hasTime status"
  then show "HumanTime parseDT now s =
        Inr \<lparr>ht_dt = d\<lparr>hour := hour now, minute := minute now, second := second now,
                         microsecond := microsecond now\<rparr>,
             ht_past = dt_less (d\<lparr>hour := hour now, minute := minute now, second := second now,
                                   microsecond := microsecond now\<rparr>) now\<rparr>"
    by (simp add: HumanTime_def replace_time_def Let_def)
next
  assume a: "short_match regex_match s = None \<and>
    nlp (normalize_arg s) now = Some ((d', status', b, e, phrase) # rest) \<and>
    hasDateOrTime status' \<and> \<not> hasTime status' \<and>
    convert conv dt_plus nlp now s = Inr r"
  then have u: "short_match regex_match s = None"
    and n: "nlp (normalize_arg s) now = Some ((d', status', b, e, phrase) # rest)"
    and h: "hasDateOrTime status'" and t: "\<not> hasTime status'"
    and c: "convert conv dt_plus nlp now s = Inr r"
    by simp_all
  from t have nh: "accuracy status' \<noteq> ACU_HALFDAY"
    using halfday_hasTime by blast
  from c have "u_dt r = replace_time d' now"
    unfolding convert_resolved[where nlp = nlp, OF u n h]
    using t nh by (auto split: if_splits dest: check_constraints_Inr(1))
  then show "u_dt r = d'\<lparr>hour := hour now, minute := minute now, second := second now,
                   microsecond := microsecond now\<rparr>"
    by (simp add: replace_time_def)
qed

theorem time_of_day_defaulting_witness:
  "ht_dt (projr (HumanTime (parser_finds (at_date 2026 11 4 9 0 0 0) 8)
      (at_date 2026 11 3 17 45 10 250) ''tomorrow'' :: unit error + human_time)) =
     at_date 2026 11 4 17 45 10 250 \<and>
   u_dt (projr (convert no_converter shift_days_hours
       (resolver_finds (at_date 2026 11 4 9 0 0 0) 8 0 8 ''tomorrow'')
       (at_date 2026 11 3 17 45 10 250) ''tomorrow, feed the cat'')) =
     at_date 2026 11 4 17 45 10 250"
proof -
  let ?n = "at_date 2026 11 3 17 45 10 250"
  let ?d = "at_date 2026 11 4 9 0 0 0"
  let ?s = "''tomorrow, feed the cat''"
  let ?nlp = "resolver_finds ?d 8 0 8 ''tomorrow''"
  let ?r = "\<lparr>u_raw = ?s, u_dt = at_date 2026 11 4 17 45 10 250,
             u_arg = Verbatim ''feed the cat'' :: unit arg, u_now = ?n\<rparr>"
  have st: "hasDateOrTime \<lparr>accuracy = 8\<rparr>" "\<not> hasTime \<lparr>accuracy = 8\<rparr>"
    by (simp_all add: hasDateOrTime_def hasTime_def ACU_TIME_def)
  have "Option.is_none (short_match regex_match ?s)"
    by code_simp
  then have u: "short_match regex_match ?s = None"
    by (simp add: Option.is_none_def)
  have c: "convert no_converter shift_days_hours ?nlp ?n ?s = Inr ?r"
    by code_simp
  have upd: "?d\<lparr>hour := hour ?n, minute := minute ?n, second := second ?n,
                 microsecond := microsecond ?n\<rparr> = at_date 2026 11 4 17 45 10 250"
    by (simp add: at_date_def)
  have 1: "HumanTime (parser_finds ?d 8) ?n ''tomorrow'' =
      (Inr \<lparr>ht_dt = ?d\<lparr>hour := hour ?n, minute := minute ?n, second := second ?n,
                         microsecond := microsecond ?n\<rparr>,
            ht_past = dt_less (?d\<lparr>hour := hour ?n, minute := minute ?n, second := second ?n,
                                  microsecond := microsecond ?n\<rparr>) ?n\<rparr>
       :: unit error + human_time)"
    by (rule time_of_day_defaulting[where status = "\<lparr>accuracy = 8\<rparr>",
          THEN conjunct1, rule_format])
      (simp add: parser_finds_def st)
  have found: "?nlp (normalize_arg ?s) ?n = Some ((?d, \<lparr>accuracy = 8\<rparr>, 0, 8, ''tomorrow'') # [])"
    by (simp add: resolver_finds_def)
  have 2: "u_dt ?r = ?d\<lparr>hour := hour ?n, minute := minute ?n, second := second ?n,
                        microsecond := microsecond ?n\<rparr>"
    by (rule time_of_day_defaulting[where nlp = ?nlp and s = ?s and status' = "\<lparr>accuracy = 8\<rparr>"
          and b = 0 and e = 8 and phrase = "''tomorrow''" and rest = "[]"
          and conv = no_converter and dt_plus = shift_days_hours,
          THEN conjunct2, rule_format])
      (intro conjI u found st c)
  from 1 2 show ?thesis
    unfolding c upd by simp
qed

section \<open>Claims about Time and FutureTime\<close>

text \<open>
  C7. When the short-duration grammar does not take the argument and the resolver's
  instant (after the time of day is filled in) is before the reference now, \<open>Time\<close>
  returns that instant with the past flag set and \<open>FutureTime\<close> fails with its past-time
  error. When the grammar matches the whole argument with at least one group, \<open>Time\<close>
  returns with the past flag cleared, and \<open>FutureTime\<close> returns the same.
\<close>

theorem past_flag:
  "(short_match regex_fullmatch s = None \<and> parseDT s now2 = (d, status) \<and>
    hasDateOrTime status \<and>
    dt_less (if hasTime status then d else replace_time d now2) now2 \<longrightarrow>
      Time dt_plus parseDT now1 now2 s =
        Inr \<lparr>ht_dt = (if hasTime status then d else replace_time d now2), ht_past = True\<rparr> \<and>
      FutureTime dt_plus parseDT now1 now2 s = Inl (BadArgument ''this time is in the past'')) \<and>
   (regex_fullmatch compiled s = Some m \<and> m_groups m k \<noteq> None \<longrightarrow>
      Time dt_plus parseDT now1 now2 s =
        Inr \<lparr>ht_dt = dt_plus now1 (parsed_fields m), ht_past = False\<rparr> \<and>
      FutureTime dt_plus parseDT now1 now2 s =
        Inr \<lparr>ht_dt = dt_plus now1 (parsed_fields m), ht_past = False\<rparr>)"
proof (intro conjI impI)
  assume a: "short_match regex_fullmatch s = None \<and> parseDT s now2 = (d, status) \<and>
    hasDateOrTime status \<and>
    dt_less (if hasTime status then d else replace_time d now2) now2"
  then show t: "Time dt_plus parseDT now1 now2 s =
        Inr \<lparr>ht_dt = (if hasTime status then d else replace_time d now2), ht_past = True\<rparr>"
    by (auto simp: Time_def ShortTime_def HumanTime_def Let_def)
  show "FutureTime dt_plus parseDT now1 now2 s = Inl (BadArgument ''this time is in the past'')"
    by (simp add: FutureTime_def t)
next
  assume "regex_fullmatch compiled s = Some m \<and> m_groups m k \<noteq> None"
  then have "regex_fullmatch compiled s = Some m" "m_groups m k \<noteq> None" by simp_all
  note sm = short_match_fullmatch[OF this]
  show t: "Time dt_plus parseDT now1 now2 s =
        Inr \<lparr>ht_dt = dt_plus now1 (parsed_fields m), ht_past = False\<rparr>"
    by (simp add: Time_def ShortTime_def sm)
  show "FutureTime dt_plus parseDT now1 now2 s =
        Inr \<lparr>ht_dt = dt_plus now1 (parsed_fields m), ht_past = False\<rparr>"
    by (simp add: FutureTime_def t)
qed

theorem past_flag_witness:
  "ht_past (projr (Time shift_days_hours (parser_finds (at_date 2026 11 2 9 0 0 0) 8)
       (at_date 2026 11 3 9 30 0 0) (at_date 2026 11 3 9 30 0 51) ''yesterday''
       :: unit error + human_time)) \<and>
   FutureTime shift_days_hours (parser_finds (at_date 2026 11 2 9 0 0 0) 8)
       (at_date 2026 11 3 9 30 0 0) (at_date 2026 11 3 9 30 0 51) ''yesterday'' =
     (Inl (BadArgument ''this time is in the past'') :: unit error + human_time) \<and>
   FutureTime shift_days_hours (parser_finds (at_date 2026 11 2 9 0 0 0) 8)
       (at_date 2026 11 3 9 30 0 0) (at_date 2026 11 3 9 30 0 51) ''2d12h'' =
     (Inr \<lparr>ht_dt = at_date 2026 11 5 21 30 0 0, ht_past = False\<rparr>
      :: unit error + human_time)"
proof -
  let ?p = "parser_finds (at_date 2026 11 2 9 0 0 0) 8"
  let ?n1 = "at_date 2026 11 3 9 30 0 0"
  let ?n2 = "at_date 2026 11 3 9 30 0 51"
  let ?st = "\<lparr>accuracy = 8\<rparr>"
  let ?m = "the (regex_fullmatch compiled ''2d12h'')"
  have "Option.is_none (short_match regex_fullmatch ''yesterday'')"
    by code_simp
  then have u: "short_match regex_fullmatch ''yesterday'' = None"
    by (simp add: Option.is_none_def)
  have p: "?p ''yesterday'' ?n2 = (at_date 2026 11 2 9 0 0 0, ?st)"
    by (simp add: parser_finds_def)
  have h: "hasDateOrTime ?st"
    by (simp add: hasDateOrTime_def)
  have l: "dt_less (if hasTime ?st then at_date 2026 11 2 9 0 0 0
                    else replace_time (at_date 2026 11 2 9 0 0 0) ?n2) ?n2"
    by code_simp
  have 1: "Time shift_days_hours ?p ?n1 ?n2 ''yesterday'' =
      (Inr \<lparr>ht_dt = (if hasTime ?st then at_date 2026 11 2 9 0 0 0
                       else replace_time (at_date 2026 11 2 9 0 0 0) ?n2), ht_past = True\<rparr>
       :: unit error + human_time) \<and>
    FutureTime shift_days_hours ?p ?n1 ?n2 ''yesterday'' =
      (Inl (BadArgument ''this time is in the past'') :: unit error + human_time)"
    by (rule past_flag[THEN conjunct1, rule_format]) (intro conjI u p h l)
  have "\<not> Option.is_none (regex_fullmatch compiled ''2d12h'')" "m_groups ?m ''days'' \<noteq> None"
    by code_simp+
  then have full: "regex_fullmatch compiled ''2d12h'' = Some ?m \<and> m_groups ?m ''days'' \<noteq> None"
    by (simp add: Option.is_none_def)
  have fields: "shift_days_hours ?n1 (parsed_fields ?m) = at_date 2026 11 5 21 30 0 0"
    by code_simp
  have 2: "Time shift_days_hours ?p ?n1 ?n2 ''2d12h'' =
      (Inr \<lparr>ht_dt = shift_days_hours ?n1 (parsed_fields ?m), ht_past = False\<rparr>
       :: unit error + human_time) \<and>
    FutureTime shift_days_hours ?p ?n1 ?n2 ''2d12h'' =
      (Inr \<lparr>ht_dt = shift_days_hours ?n1 (parsed_fields ?m), ht_past = False\<rparr>
       :: unit error + human_time)"
    by (rule past_flag[THEN conjunct2, rule_format]) (rule full)
  from 1 2 show ?thesis
    by (simp add: fields)
qed

section \<open>Where the code departs from its description\<close>

lemma normalize_arg_from_now: "normalize_arg ''om 2 timer fra nu'' = ''om 2 tim''"
  by code_simp

lemma unmatched_from_now: "short_match regex_match ''om 2 timer fra nu'' = None"
proof -
  have "Option.is_none (short_match regex_match ''om 2 timer fra nu'')"
    by code_simp
  then show ?thesis by (simp add: Option.is_none_def)
qed

text \<open>
  C4. The argument \<open>om 2 timer fra nu\<close> ends with the phrase of line 134, which has seven
  characters; line 135 cuts nine, so the resolver is given \<open>om 2 tim\<close> and not
  \<open>om 2 timer\<close>. With a resolver that finds nothing in that text, the conversion returns
  it as the remaining text.
\<close>

theorem from_now_cuts_nine:
  "normalize_arg ''om 2 timer fra nu'' = ''om 2 tim'' \<and>
   convert None dt_plus (\<lambda>a n. None) now ''om 2 timer fra nu'' =
     Inr \<lparr>u_raw = ''om 2 timer fra nu'', u_dt = now, u_arg = Verbatim ''om 2 tim'', u_now = now\<rparr>"
  unfolding convert_unmatched[OF unmatched_from_now] normalize_arg_from_now
  by (simp add: check_constraints_def dt_less_def)

lemma halfday_moves:
  assumes "short_match regex_match s = None"
    and "nlp (normalize_arg s) now = Some ((d, status, b, e, phrase) # rest)"
    and "accuracy status = ACU_HALFDAY"
    and "convert conv dt_plus nlp now s = Inr r"
  shows "u_dt r = d\<lparr>day := day now + 1\<rparr>"
proof -
  have h: "hasDateOrTime status" "hasTime status"
    using assms(3) halfday_hasTime by (simp_all add: hasDateOrTime_def ACU_HALFDAY_def)
  from assms(4) show ?thesis
    unfolding convert_resolved[where nlp = nlp, OF assms(1,2) h(1)]
    using assms(3) h(2)
    by (auto simp: replace_day_def split: if_splits sum.splits dest: check_constraints_Inr(1))
qed

lemma halfday_raises:
  assumes "short_match regex_match s = None"
    and "nlp (normalize_arg s) now = Some ((d, status, b, e, phrase) # rest)"
    and "accuracy status = ACU_HALFDAY"
    and "b \<in> {0, 1} \<or> e = length (normalize_arg s)"
    and "days_in_month (year d) (month d) < day now + 1"
  shows "convert conv dt_plus nlp now s = Inl (ValueError ''day is out of range for month'')"
proof -
  have h: "hasDateOrTime status" "hasTime status"
    using assms(3) halfday_hasTime by (simp_all add: hasDateOrTime_def ACU_HALFDAY_def)
  show ?thesis
    unfolding convert_resolved[where nlp = nlp, OF assms(1,2) h(1)]
    using assms(3,4,5) h(2) by (auto simp: replace_day_def)
qed

text \<open>
  C5. On 31 January the argument \<open>midnight\<close>, which the resolver reports with the half-day
  accuracy, is not moved to the next day: \<open>dt.replace(day=now.day + 1)\<close> asks for day 32
  and raises \<open>ValueError\<close>.
\<close>

theorem midnight_at_month_end:
  "convert no_converter shift_days_hours
     (resolver_finds (at_date 2026 1 31 0 0 0 0) ACU_HALFDAY 0 8 ''midnight'')
     (at_date 2026 1 31 10 0 0 0) ''midnight'' =
   Inl (ValueError ''day is out of range for month'')"
  by code_simp

lemma check_constraints_not_position:
  "check_constraints conv raw now d remaining \<noteq> Inl (BadArgument msg_position)"
  by (simp add: check_constraints_def msg_position_def split: option.splits sum.splits)

lemma replace_day_not_BadArgument: "replace_day d v \<noteq> Inl (BadArgument msg)"
  by (simp add: replace_day_def)

lemma position_error_iff:
  assumes "short_match regex_match s = None"
    and "nlp (normalize_arg s) now = Some ((d, status, b, e, phrase) # rest)"
    and "hasDateOrTime status"
  shows "convert conv dt_plus nlp now s = Inl (BadArgument msg_position) \<longleftrightarrow>
         b \<notin> {0, 1} \<and> e \<noteq> length (normalize_arg s)"
proof (cases "b \<notin> {0, 1} \<and> e \<noteq> length (normalize_arg s)")
  case True
  then show ?thesis
    unfolding convert_resolved[where nlp = nlp, OF assms] by simp
next
  case False
  have "convert conv dt_plus nlp now s \<noteq> Inl (BadArgument msg_position)"
    unfolding convert_resolved[where nlp = nlp, OF assms]
    using False check_constraints_not_position[of conv s now]
      replace_day_not_BadArgument[of _ _ msg_position]
    by (auto simp: msg_open_quote_def msg_close_quote_def msg_position_def
        split: sum.splits if_splits)
  with False show ?thesis by simp
qed

lemma quote_errors:
  assumes "short_match regex_match s = None"
    and "nlp (normalize_arg s) now = Some ((d, status, 1, e, phrase) # rest)"
    and "hasDateOrTime status"
    and "accuracy status \<noteq> ACU_HALFDAY \<or>
         day now + 1 \<le> days_in_month (year d) (month d) \<and> 0 \<le> day now"
    and "normalize_arg s \<noteq> []"
  shows "normalize_arg s ! 0 \<noteq> CHR 0x22 \<Longrightarrow>
           convert conv dt_plus nlp now s = Inl (BadArgument msg_open_quote)"
    and "normalize_arg s ! 0 = CHR 0x22 \<Longrightarrow>
         \<not> (e < length (normalize_arg s) \<and> normalize_arg s ! e = CHR 0x22) \<Longrightarrow>
           convert conv dt_plus nlp now s = Inl (BadArgument msg_close_quote)"
  unfolding convert_resolved[where nlp = nlp, OF assms(1,2,3)]
  using assms(4,5) by (auto simp: replace_day_def replace_time_def split: sum.splits)

text \<open>
  C3. On 31 January the argument \<open>"midnight do the thing\<close>, whose time phrase begins at
  offset 1 and is followed by a blank, does not fail with the closing-quote error: the day
  replacement of line 178 comes first and raises \<open>ValueError\<close>.
\<close>

theorem unclosed_quote_at_month_end:
  "convert no_converter shift_days_hours
     (resolver_finds (at_date 2026 1 31 0 0 0 0) ACU_HALFDAY 1 9 ''midnight'')
     (at_date 2026 1 31 10 0 0 0) ([CHR 0x22] @ ''midnight do the thing'') =
   Inl (ValueError ''day is out of range for month'')"
  by code_simp

section \<open>human_timedelta never returns\<close>

lemma human_timedelta_raises:
  "human_timedelta rd_between rd_plus utcnow d source = Inl (AttributeError [CHR 0xE5, CHR ''r''])"
  by (simp add: human_timedelta_def Let_def attrs_def getattr_def split: prod.splits)

text \<open>
  C8. For a target one day after the source, where the claim has the text \<open>1 dag\<close>,
  \<open>human_timedelta\<close> raises \<open>AttributeError\<close>: the first name of line 215 is no attribute of
  a \<open>relativedelta\<close>.
\<close>

theorem one_day_is_not_rendered:
  "human_timedelta (\<lambda>a b. delta_of 0 0 1 0 0 0 0) rd_plus utcnow
     (at_date 2026 11 4 12 0 0 0) (Some (at_date 2026 11 3 12 0 0 0)) =
   Inl (AttributeError [CHR 0xE5, CHR ''r''])"
  by (rule human_timedelta_raises)

text \<open>
  C9. For a target 90.5 seconds after the source the delta has 30 seconds and 500000
  microseconds, so line 213 adds a second; nothing is rendered from the sum, because
  \<open>human_timedelta\<close> raises \<open>AttributeError\<close> at the first name of line 215.
\<close>

theorem rounded_delta_is_not_rendered:
  "human_timedelta (\<lambda>a b. delta_of 0 0 0 0 1 30 500000) rd_plus utcnow
     (at_date 2026 11 3 12 1 30 500000) (Some (at_date 2026 11 3 12 0 0 0)) =
   Inl (AttributeError [CHR 0xE5, CHR ''r''])"
  by (rule human_timedelta_raises)

end
